theory Spec2Isabelle
  imports Main "HOL-Library.Char_ord" "HOL-Library.List_Lexorder" "HOL-Library.Multiset"
begin

section \<open>JavaScript values and strings\<close>

text \<open>
  A JavaScript string is modelled by the list of its code units, an Isabelle \<open>string\<close>;
  a \<open>char\<close> has 8 bits, so the strings of the model are those whose code units are below
  256. The order on strings is the lexicographic order on code units, which is the order
  that \<^verbatim>\<open>Array.prototype.sort\<close> uses when it is called without a comparator.

  A raw cell value is a JavaScript primitive. The numbers of the model are the integers,
  which \<^verbatim>\<open>String\<close> prints in decimal.
\<close>

datatype jsval = Undefined | Null | Bool bool | Num int | Str string

datatype error = TypeError

text \<open>Truthiness, as tested by \<^verbatim>\<open>||\<close>, \<^verbatim>\<open>!!\<close> and \<^verbatim>\<open>if\<close>.\<close>

fun truthy :: "jsval \<Rightarrow> bool" where
  "truthy Undefined = False"
| "truthy Null = False"
| "truthy (Bool b) = b"
| "truthy (Num n) = (n \<noteq> 0)"
| "truthy (Str s) = (s \<noteq> [])"

text \<open>Decimal digits of a natural number, most significant first.\<close>

fun digits :: "nat \<Rightarrow> string" where
  "digits n = (if n < 10 then [''0123456789'' ! n]
               else digits (n div 10) @ [''0123456789'' ! (n mod 10)])"

declare digits.simps [simp del]

text \<open>\<^verbatim>\<open>String(v)\<close> on a primitive.\<close>

fun toString :: "jsval \<Rightarrow> string" where
  "toString Undefined = ''undefined''"
| "toString Null = ''null''"
| "toString (Bool b) = (if b then ''true'' else ''false'')"
| "toString (Num n) = (if n < 0 then ''-'' @ digits (nat (- n)) else digits (nat n))"
| "toString (Str s) = s"

text \<open>
  \<^verbatim>\<open>String.prototype.trim\<close>: the white space and line terminator code units of the
  8-bit range are TAB, LF, VT, FF, CR, SP and NBSP.
\<close>

definition is_space :: "char \<Rightarrow> bool" where
  "is_space c = (of_char c \<in> {9, 10, 11, 12, 13, 32, 160 :: nat})"

definition trim :: "string \<Rightarrow> string" where
  "trim s = rev (dropWhile is_space (rev (dropWhile is_space s)))"

section \<open>Data model\<close>

text \<open>A row is the object built for one line of a sheet: header name to raw value.\<close>

type_synonym row = "string \<rightharpoonup> jsval"

record sheet =
  sheet_name :: string
  headers :: "string list"
  sheet_data :: "row list"

record file_entry =
  fileName :: string
  sheets :: "sheet list"

record source =
  fileIndex :: nat
  sheetName :: string
  source_fileName :: string

text \<open>A field of a selection that is absent, \<^verbatim>\<open>undefined\<close> or \<^verbatim>\<open>null\<close> is \<open>None\<close>.\<close>

record selection =
  sel_yAxis :: "string option"
  sel_xAxis :: "string option"
  secondaryXAxis :: "string option"

record config =
  config_name :: string
  sources :: "source list"
  merge :: bool

record matrix =
  name :: string
  yAxis :: "string list"
  xAxis :: "string list"
  data :: "nat list list"

section \<open>The pieces of computeMatrices\<close>

text \<open>
  \<^verbatim>\<open>row[col]\<close>. A row is modelled by the keys it was built with: a key that the row does
  not have reads as \<^verbatim>\<open>undefined\<close>, and so does a column name that is missing.
\<close>

definition get :: "row \<Rightarrow> string option \<Rightarrow> jsval" where
  "get r col = (case col of None \<Rightarrow> Undefined
                | Some c \<Rightarrow> (case r c of None \<Rightarrow> Undefined | Some v \<Rightarrow> v))"

text \<open>\<^verbatim>\<open>String(row[col] || '').trim()\<close>\<close>

definition axisValue :: "row \<Rightarrow> string option \<Rightarrow> string" where
  "axisValue r col = trim (toString (if truthy (get r col) then get r col else Str []))"

text \<open>A column name used as a condition: \<^verbatim>\<open>secondaryXCol ? ... : null\<close>.\<close>

definition selected :: "string option \<Rightarrow> bool" where
  "selected col = (case col of None \<Rightarrow> False | Some c \<Rightarrow> c \<noteq> [])"

text \<open>\<^verbatim>\<open>secondaryXCol ? String(row[secondaryXCol] || '').trim() : null\<close>\<close>

definition secondaryValue :: "row \<Rightarrow> string option \<Rightarrow> string option" where
  "secondaryValue r col = (if selected col then Some (axisValue r col) else None)"

text \<open>The key \<^verbatim>\<open>`${source.fileIndex}-${source.sheetName}`\<close> and the three selected columns.\<close>

definition sel_key :: "source \<Rightarrow> string" where
  "sel_key src = digits (fileIndex src) @ ''-'' @ sheetName src"

definition yCol :: "(string \<rightharpoonup> selection) \<Rightarrow> source \<Rightarrow> string option" where
  "yCol columnSelections src = Option.bind (columnSelections (sel_key src)) sel_yAxis"

definition xCol :: "(string \<rightharpoonup> selection) \<Rightarrow> source \<Rightarrow> string option" where
  "xCol columnSelections src = Option.bind (columnSelections (sel_key src)) sel_xAxis"

definition secondaryXCol :: "(string \<rightharpoonup> selection) \<Rightarrow> source \<Rightarrow> string option" where
  "secondaryXCol columnSelections src =
     Option.bind (columnSelections (sel_key src)) secondaryXAxis"

text \<open>
  \<^verbatim>\<open>fileData[source.fileIndex]\<close> followed by \<^verbatim>\<open>file.sheets.find(s => s.name === source.sheetName)\<close>:
  reading \<^verbatim>\<open>sheets\<close> of an index outside the array throws.
\<close>

definition lookup_sheet :: "file_entry list \<Rightarrow> source \<Rightarrow> error + sheet option" where
  "lookup_sheet fileData src =
     (if fileIndex src < length fileData
      then Inr (find (\<lambda>s. sheet_name s = sheetName src) (sheets (fileData ! fileIndex src)))
      else Inl TypeError)"

text \<open>\<^verbatim>\<open>Set.prototype.add\<close> on a set kept in insertion order.\<close>

definition set_add :: "'a \<Rightarrow> 'a list \<Rightarrow> 'a list" where
  "set_add v s = (if v \<in> set s then s else s @ [v])"

text \<open>\<^verbatim>\<open>Array.prototype.indexOf\<close>\<close>

fun indexOf :: "'a list \<Rightarrow> 'a \<Rightarrow> int" where
  "indexOf [] v = - 1"
| "indexOf (x # xs) v =
     (if x = v then 0 else (let i = indexOf xs v in if i < 0 then - 1 else i + 1))"

text \<open>\<^verbatim>\<open>forEach\<close> with a body that may throw.\<close>

fun foldE :: "('a \<Rightarrow> 's \<Rightarrow> error + 's) \<Rightarrow> 'a list \<Rightarrow> 's \<Rightarrow> error + 's" where
  "foldE f [] s = Inr s"
| "foldE f (x # xs) s = (case f x s of Inl e \<Rightarrow> Inl e | Inr s' \<Rightarrow> foldE f xs s')"

text \<open>\<^verbatim>\<open>sortedY.map(() => sortedX.map(() => 0))\<close>\<close>

definition zeros :: "string list \<Rightarrow> string list \<Rightarrow> nat list list" where
  "zeros sortedY sortedX = map (\<lambda>_. map (\<lambda>_. 0) sortedX) sortedY"

text \<open>The two \<^verbatim>\<open>indexOf\<close> calls and the assignment \<^verbatim>\<open>matrix.data[yIdx][xIdx] = 1\<close>.\<close>

definition mark :: "string list \<Rightarrow> string list \<Rightarrow> string \<Rightarrow> string \<Rightarrow> nat list list \<Rightarrow> nat list list" where
  "mark sortedY sortedX yVal xVal d =
     (let yIdx = indexOf sortedY yVal; xIdx = indexOf sortedX xVal
      in if yIdx \<ge> 0 \<and> xIdx \<ge> 0 then d[nat yIdx := (d ! nat yIdx)[nat xIdx := 1]] else d)"

text \<open>The body of the row loop of a matrix without a secondary value.\<close>

definition mark_row :: "string option \<Rightarrow> string option \<Rightarrow> string list \<Rightarrow> string list \<Rightarrow> row \<Rightarrow> nat list list \<Rightarrow> nat list list" where
  "mark_row yc xc sortedY sortedX r d =
     (let yVal = axisValue r yc; xVal = axisValue r xc
      in if yVal \<noteq> [] \<and> xVal \<noteq> [] then mark sortedY sortedX yVal xVal d else d)"

text \<open>The body of the row loop of the matrix of the secondary value \<open>secX\<close>.\<close>

definition mark_row_sec :: "string option \<Rightarrow> string option \<Rightarrow> string option \<Rightarrow> string \<Rightarrow> string list \<Rightarrow> string list \<Rightarrow> row \<Rightarrow> nat list list \<Rightarrow> nat list list" where
  "mark_row_sec yc xc sc secX sortedY sortedX r d =
     (let yVal = axisValue r yc; xVal = axisValue r xc; secondaryXVal = secondaryValue r sc
      in if yVal \<noteq> [] \<and> xVal \<noteq> [] \<and> secondaryXVal = Some secX
         then mark sortedY sortedX yVal xVal d else d)"

section \<open>Independent mode: one source\<close>

text \<open>
  The first row loop of a source. The set of secondary values exists only when a secondary
  column is selected: \<^verbatim>\<open>secondaryXCol ? new Set() : null\<close>.
\<close>

definition collect_row :: "string option \<Rightarrow> string option \<Rightarrow> string option \<Rightarrow> row \<Rightarrow>
    string list \<times> string list \<times> string list option \<Rightarrow> string list \<times> string list \<times> string list option" where
  "collect_row yc xc sc r acc =
     (case acc of (yValues, xValues, secondaryXValues) \<Rightarrow>
        let yVal = axisValue r yc; xVal = axisValue r xc; secondaryXVal = secondaryValue r sc
        in (if yVal \<noteq> [] then set_add yVal yValues else yValues,
            if xVal \<noteq> [] then set_add xVal xValues else xValues,
            (case (secondaryXVal, secondaryXValues) of
               (Some v, Some s) \<Rightarrow> if v \<noteq> [] then Some (set_add v s) else Some s
             | _ \<Rightarrow> secondaryXValues)))"

text \<open>The body of \<^verbatim>\<open>config.sources.forEach\<close> when \<^verbatim>\<open>config.merge\<close> is false.\<close>

definition independent_source :: "file_entry list \<Rightarrow> (string \<rightharpoonup> selection) \<Rightarrow> source \<Rightarrow>
    matrix list \<Rightarrow> error + matrix list" where
  "independent_source fileData columnSelections src matrices =
     (case lookup_sheet fileData src of
        Inl e \<Rightarrow> Inl e
      | Inr None \<Rightarrow> Inr matrices
      | Inr (Some sh) \<Rightarrow>
          let yc = yCol columnSelections src;
              xc = xCol columnSelections src;
              sc = secondaryXCol columnSelections src;
              acc = fold (collect_row yc xc sc) (sheet_data sh)
                      ([], [], if selected sc then Some [] else None);
              sortedY = sort (fst acc);
              sortedX = sort (fst (snd acc));
              sortedSecondaryX = map_option sort (snd (snd acc))
          in (case sortedSecondaryX of
                Some (s # ss) \<Rightarrow>
                  Inr (matrices @ map (\<lambda>secX.
                    \<lparr> name = source_fileName src @ '' - '' @ sheetName src @ '' - '' @ secX,
                      yAxis = sortedY, xAxis = sortedX,
                      data = fold (mark_row_sec yc xc sc secX sortedY sortedX) (sheet_data sh)
                               (zeros sortedY sortedX) \<rparr>) (s # ss))
              | _ \<Rightarrow>
                  Inr (matrices @
                    [\<lparr> name = source_fileName src @ '' - '' @ sheetName src,
                       yAxis = sortedY, xAxis = sortedX,
                       data = fold (mark_row yc xc sortedY sortedX) (sheet_data sh)
                                (zeros sortedY sortedX) \<rparr>])))"

section \<open>Merge mode: one config\<close>

text \<open>The row loop that collects the values of all sources.\<close>

definition merge_collect_row :: "string option \<Rightarrow> string option \<Rightarrow> string option \<Rightarrow> row \<Rightarrow>
    string list \<times> string list \<times> string list \<Rightarrow> string list \<times> string list \<times> string list" where
  "merge_collect_row yc xc sc r acc =
     (case acc of (yValues, xValues, secondaryXValues) \<Rightarrow>
        let yVal = axisValue r yc; xVal = axisValue r xc; secondaryXVal = secondaryValue r sc
        in (if yVal \<noteq> [] then set_add yVal yValues else yValues,
            if xVal \<noteq> [] then set_add xVal xValues else xValues,
            (case secondaryXVal of
               Some v \<Rightarrow> if v \<noteq> [] then set_add v secondaryXValues else secondaryXValues
             | None \<Rightarrow> secondaryXValues)))"

definition merge_collect_source :: "file_entry list \<Rightarrow> (string \<rightharpoonup> selection) \<Rightarrow> source \<Rightarrow>
    string list \<times> string list \<times> string list \<Rightarrow> error + string list \<times> string list \<times> string list" where
  "merge_collect_source fileData columnSelections src acc =
     (case lookup_sheet fileData src of
        Inl e \<Rightarrow> Inl e
      | Inr None \<Rightarrow> Inr acc
      | Inr (Some sh) \<Rightarrow>
          Inr (fold (merge_collect_row (yCol columnSelections src) (xCol columnSelections src)
                       (secondaryXCol columnSelections src)) (sheet_data sh) acc))"

text \<open>Marking the intersections of one source in the matrix of \<open>secX\<close>.\<close>

definition merge_mark_sec_source :: "file_entry list \<Rightarrow> (string \<rightharpoonup> selection) \<Rightarrow> string \<Rightarrow>
    string list \<Rightarrow> string list \<Rightarrow> source \<Rightarrow> nat list list \<Rightarrow> error + nat list list" where
  "merge_mark_sec_source fileData columnSelections secX sortedY sortedX src d =
     (case lookup_sheet fileData src of
        Inl e \<Rightarrow> Inl e
      | Inr None \<Rightarrow> Inr d
      | Inr (Some sh) \<Rightarrow>
          Inr (fold (mark_row_sec (yCol columnSelections src) (xCol columnSelections src)
                       (secondaryXCol columnSelections src) secX sortedY sortedX)
                 (sheet_data sh) d))"

text \<open>Marking the intersections of one source in the single merged matrix.\<close>

definition merge_mark_source :: "file_entry list \<Rightarrow> (string \<rightharpoonup> selection) \<Rightarrow>
    string list \<Rightarrow> string list \<Rightarrow> source \<Rightarrow> nat list list \<Rightarrow> error + nat list list" where
  "merge_mark_source fileData columnSelections sortedY sortedX src d =
     (case lookup_sheet fileData src of
        Inl e \<Rightarrow> Inl e
      | Inr None \<Rightarrow> Inr d
      | Inr (Some sh) \<Rightarrow>
          Inr (fold (mark_row (yCol columnSelections src) (xCol columnSelections src)
                       sortedY sortedX) (sheet_data sh) d))"

text \<open>The branch \<^verbatim>\<open>if (config.merge)\<close>.\<close>

definition merge_config :: "file_entry list \<Rightarrow> (string \<rightharpoonup> selection) \<Rightarrow> config \<Rightarrow>
    matrix list \<Rightarrow> error + matrix list" where
  "merge_config fileData columnSelections cfg matrices =
     (let hasSecondaryX =
            list_ex (\<lambda>src. selected (secondaryXCol columnSelections src)) (sources cfg)
      in case foldE (merge_collect_source fileData columnSelections) (sources cfg) ([], [], []) of
           Inl e \<Rightarrow> Inl e
         | Inr acc \<Rightarrow>
             let sortedY = sort (fst acc);
                 sortedX = sort (fst (snd acc));
                 sortedSecondaryX = (if hasSecondaryX then Some (sort (snd (snd acc))) else None)
             in (case sortedSecondaryX of
                   Some (s # ss) \<Rightarrow>
                     foldE (\<lambda>secX ms.
                        case foldE (merge_mark_sec_source fileData columnSelections secX
                                      sortedY sortedX) (sources cfg) (zeros sortedY sortedX) of
                          Inl e \<Rightarrow> Inl e
                        | Inr d \<Rightarrow>
                            Inr (ms @ [\<lparr> name = config_name cfg @ '' - '' @ secX,
                                         yAxis = sortedY, xAxis = sortedX, data = d \<rparr>]))
                       (s # ss) matrices
                 | _ \<Rightarrow>
                     (case foldE (merge_mark_source fileData columnSelections sortedY sortedX)
                             (sources cfg) (zeros sortedY sortedX) of
                        Inl e \<Rightarrow> Inl e
                      | Inr d \<Rightarrow>
                          Inr (matrices @ [\<lparr> name = config_name cfg,
                                             yAxis = sortedY, xAxis = sortedX, data = d \<rparr>]))))"

section \<open>computeMatrices\<close>

text \<open>The parameter \<open>selectedTabs\<close> is not read by the function.\<close>

definition computeMatrices :: "file_entry list \<Rightarrow> 'tabs \<Rightarrow> (string \<rightharpoonup> selection) \<Rightarrow>
    config list \<Rightarrow> error + matrix list" where
  "computeMatrices fileData selectedTabs columnSelections matrixConfig =
     foldE (\<lambda>cfg matrices.
        if merge cfg then merge_config fileData columnSelections cfg matrices
        else foldE (independent_source fileData columnSelections) (sources cfg) matrices)
       matrixConfig []"

section \<open>The scenarios of the specification\<close>

text \<open>Scenario A: three rows with the columns Emp and Role.\<close>

definition scenario_A_rows :: "row list" where
  "scenario_A_rows =
     [ [''Emp'' \<mapsto> Str ''Alice'', ''Role'' \<mapsto> Str ''Admin''],
       [''Emp'' \<mapsto> Str ''Bob'', ''Role'' \<mapsto> Str ''Admin''],
       [''Emp'' \<mapsto> Str ''Alice'', ''Role'' \<mapsto> Str ''Editor''] ]"

text \<open>Scenario B: the same rows with a column Dept.\<close>

definition scenario_B_rows :: "row list" where
  "scenario_B_rows =
     [ [''Emp'' \<mapsto> Str ''Alice'', ''Role'' \<mapsto> Str ''Admin'', ''Dept'' \<mapsto> Str ''HR''],
       [''Emp'' \<mapsto> Str ''Bob'', ''Role'' \<mapsto> Str ''Admin'', ''Dept'' \<mapsto> Str ''HR''],
       [''Emp'' \<mapsto> Str ''Alice'', ''Role'' \<mapsto> Str ''Editor'', ''Dept'' \<mapsto> Str ''Eng''] ]"

definition scenario_sheet :: "row list \<Rightarrow> sheet" where
  "scenario_sheet rows =
     \<lparr> sheet_name = ''staff'', headers = [''Emp'', ''Role'', ''Dept''], sheet_data = rows \<rparr>"

definition scenario_files :: "row list \<Rightarrow> file_entry list" where
  "scenario_files rows = [ \<lparr> fileName = ''staff.csv'', sheets = [scenario_sheet rows] \<rparr> ]"

definition scenario_source :: source where
  "scenario_source = \<lparr> fileIndex = 0, sheetName = ''staff'', source_fileName = ''staff.csv'' \<rparr>"

definition scenario_selections :: "string option \<Rightarrow> string \<rightharpoonup> selection" where
  "scenario_selections sec =
     [ ''0-staff'' \<mapsto> \<lparr> sel_yAxis = Some ''Emp'', sel_xAxis = Some ''Role'',
                         secondaryXAxis = sec \<rparr> ]"

definition scenario_config :: "bool \<Rightarrow> config" where
  "scenario_config m = \<lparr> config_name = ''staff'', sources = [scenario_source], merge = m \<rparr>"

section \<open>What a run computes, stated on sets\<close>

text \<open>The grid over two axes whose cell is 1 exactly where \<open>P\<close> holds.\<close>

definition grid :: "string list \<Rightarrow> string list \<Rightarrow> (string \<Rightarrow> string \<Rightarrow> bool) \<Rightarrow> nat list list" where
  "grid Y X P = map (\<lambda>y. map (\<lambda>x. if P y x then 1 else 0) X) Y"

text \<open>Adding an optional value to a set unless it is empty: \<^verbatim>\<open>if (v) values.add(v)\<close>.\<close>

fun add_opt :: "string option \<Rightarrow> string list \<Rightarrow> string list" where
  "add_opt None s = s"
| "add_opt (Some v) s = (if v \<noteq> [] then set_add v s else s)"

text \<open>The values that the rows of the resolved sources give, by a reader \<open>g\<close> of a row.\<close>

definition collected :: "file_entry list \<Rightarrow> source list \<Rightarrow> (source \<Rightarrow> row \<Rightarrow> string option) \<Rightarrow> string set" where
  "collected fileData srcs g =
     {v. v \<noteq> [] \<and> (\<exists>src \<in> set srcs. \<exists>sh. lookup_sheet fileData src = Inr (Some sh) \<and>
            (\<exists>r \<in> set (sheet_data sh). g src r = Some v))}"

definition yValOf :: "(string \<rightharpoonup> selection) \<Rightarrow> source \<Rightarrow> row \<Rightarrow> string option" where
  "yValOf columnSelections src r = Some (axisValue r (yCol columnSelections src))"

definition xValOf :: "(string \<rightharpoonup> selection) \<Rightarrow> source \<Rightarrow> row \<Rightarrow> string option" where
  "xValOf columnSelections src r = Some (axisValue r (xCol columnSelections src))"

definition secValOf :: "(string \<rightharpoonup> selection) \<Rightarrow> source \<Rightarrow> row \<Rightarrow> string option" where
  "secValOf columnSelections src r = secondaryValue r (secondaryXCol columnSelections src)"

text \<open>Some row pairs \<open>a\<close> with \<open>b\<close> (and has the secondary value \<open>sec\<close>, when one is asked for).\<close>

definition row_hits :: "string option \<Rightarrow> string option \<Rightarrow> string option \<Rightarrow> string option \<Rightarrow> row list \<Rightarrow>
    string \<Rightarrow> string \<Rightarrow> bool" where
  "row_hits yc xc sc sec rows a b =
     (a \<noteq> [] \<and> b \<noteq> [] \<and>
      (\<exists>r \<in> set rows. axisValue r yc = a \<and> axisValue r xc = b \<and>
         (case sec of None \<Rightarrow> True | Some s \<Rightarrow> secondaryValue r sc = Some s)))"

definition hit :: "file_entry list \<Rightarrow> (string \<rightharpoonup> selection) \<Rightarrow> source list \<Rightarrow> string option \<Rightarrow>
    string \<Rightarrow> string \<Rightarrow> bool" where
  "hit fileData columnSelections srcs sec a b =
     (\<exists>src \<in> set srcs. \<exists>sh. lookup_sheet fileData src = Inr (Some sh) \<and>
        row_hits (yCol columnSelections src) (xCol columnSelections src)
          (secondaryXCol columnSelections src) sec (sheet_data sh) a b)"

text \<open>The matrices of a group of sources under the name \<open>nm\<close>.\<close>

definition built :: "file_entry list \<Rightarrow> (string \<rightharpoonup> selection) \<Rightarrow> source list \<Rightarrow> string \<Rightarrow> matrix list" where
  "built fileData columnSelections srcs nm =
     (let Y = sorted_list_of_set (collected fileData srcs (yValOf columnSelections));
          X = sorted_list_of_set (collected fileData srcs (xValOf columnSelections));
          S = sorted_list_of_set (collected fileData srcs (secValOf columnSelections))
      in if S = []
         then [\<lparr> name = nm, yAxis = Y, xAxis = X,
                  data = grid Y X (hit fileData columnSelections srcs None) \<rparr>]
         else map (\<lambda>s. \<lparr> name = nm @ '' - '' @ s, yAxis = Y, xAxis = X,
                          data = grid Y X (hit fileData columnSelections srcs (Some s)) \<rparr>) S)"

text \<open>The matrices of one source in independent mode, and of one config.\<close>

definition source_matrices :: "file_entry list \<Rightarrow> (string \<rightharpoonup> selection) \<Rightarrow> source \<Rightarrow> matrix list" where
  "source_matrices fileData columnSelections src =
     (case lookup_sheet fileData src of
        Inr (Some sh) \<Rightarrow>
          built fileData columnSelections [src] (source_fileName src @ '' - '' @ sheetName src)
      | _ \<Rightarrow> [])"

definition config_matrices :: "file_entry list \<Rightarrow> (string \<rightharpoonup> selection) \<Rightarrow> config \<Rightarrow> matrix list" where
  "config_matrices fileData columnSelections cfg =
     (if merge cfg then built fileData columnSelections (sources cfg) (config_name cfg)
      else concat (map (source_matrices fileData columnSelections) (sources cfg)))"

text \<open>Every source of every config names a file of \<open>fileData\<close>.\<close>

definition in_range :: "file_entry list \<Rightarrow> config list \<Rightarrow> bool" where
  "in_range fileData matrixConfig =
     (\<forall>cfg \<in> set matrixConfig. \<forall>src \<in> set (sources cfg). fileIndex src < length fileData)"

text \<open>Two files: the staff sheet of Scenario B and a sheet without a Dept column.\<close>

definition two_files :: "file_entry list" where
  "two_files =
     [ \<lparr> fileName = ''staff.csv'', sheets = [scenario_sheet scenario_B_rows] \<rparr>,
       \<lparr> fileName = ''ops.csv'',
         sheets = [ \<lparr> sheet_name = ''ops'', headers = [''Emp'', ''Role''],
                      sheet_data = [ [''Emp'' \<mapsto> Str ''Carol'', ''Role'' \<mapsto> Str ''Admin''] ] \<rparr> ] \<rparr> ]"

definition ops_source :: source where
  "ops_source = \<lparr> fileIndex = 1, sheetName = ''ops'', source_fileName = ''ops.csv'' \<rparr>"

definition two_selections :: "string option \<Rightarrow> string \<rightharpoonup> selection" where
  "two_selections sec =
     [ ''0-staff'' \<mapsto> \<lparr> sel_yAxis = Some ''Emp'', sel_xAxis = Some ''Role'',
                         secondaryXAxis = sec \<rparr>,
       ''1-ops'' \<mapsto> \<lparr> sel_yAxis = Some ''Emp'', sel_xAxis = Some ''Role'',
                       secondaryXAxis = None \<rparr> ]"

definition two_config :: "bool \<Rightarrow> config" where
  "two_config m = \<lparr> config_name = ''all'', sources = [scenario_source, ops_source], merge = m \<rparr>"

text \<open>
  Two lists of files that differ only in the order of the rows of their sheets: the same
  files and sheets in the same order, every sheet with the same rows up to a permutation.
\<close>

definition rows_permuted :: "sheet \<Rightarrow> sheet \<Rightarrow> bool" where
  "rows_permuted sh sh' =
     (sheet_name sh = sheet_name sh' \<and> headers sh = headers sh' \<and>
      mset (sheet_data sh) = mset (sheet_data sh'))"

definition files_permuted :: "file_entry list \<Rightarrow> file_entry list \<Rightarrow> bool" where
  "files_permuted fileData fileData' =
     list_all2 (\<lambda>f f'. fileName f = fileName f' \<and> list_all2 rows_permuted (sheets f) (sheets f'))
       fileData fileData'"



section \<open>Sets, sorting and indexOf\<close>

text \<open>The order on strings compares code units from the left.\<close>

lemma string_less_Cons:
  "(x # xs) < (y # ys) \<longleftrightarrow>
     (of_char x :: nat) < of_char y \<or> (x = y \<and> xs < ys)"
  by (auto simp: less_char_def)

lemma string_less_Nil: "([] :: string) < y # ys" "\<not> xs < ([] :: string)"
  by simp_all

lemma set_set_add: "set (set_add v s) = insert v (set s)"
  by (auto simp: set_add_def)

lemma distinct_set_add: "distinct s \<Longrightarrow> distinct (set_add v s)"
  by (simp add: set_add_def)

lemma sort_distinct_eq:
  fixes l :: "'a::linorder list"
  assumes "distinct l"
  shows "sort l = sorted_list_of_set (set l)"
  using assms by (simp add: sorted_list_of_set_sort_remdups distinct_remdups_id)

lemma indexOf_bounds: "- 1 \<le> indexOf xs v \<and> indexOf xs v < int (length xs)"
  by (induction xs) (auto simp: Let_def)

lemma indexOf_neg_iff: "indexOf xs v < 0 \<longleftrightarrow> v \<notin> set xs"
proof (induction xs)
  case Nil
  then show ?case by simp
next
  case (Cons x xs)
  from indexOf_bounds [of xs v] have "- 1 \<le> indexOf xs v" by simp
  with Cons show ?case by (auto simp: Let_def)
qed

lemma indexOf_nth: "v \<in> set xs \<Longrightarrow> xs ! nat (indexOf xs v) = v"
proof (induction xs)
  case Nil
  then show ?case by simp
next
  case (Cons x xs)
  show ?case
  proof (cases "x = v")
    case True
    then show ?thesis by simp
  next
    case False
    with Cons.prems have mem: "v \<in> set xs" by simp
    then have "\<not> indexOf xs v < 0" by (simp add: indexOf_neg_iff)
    with False Cons.IH [OF mem] show ?thesis
      by (simp add: Let_def nat_add_distrib)
  qed
qed


lemma zeros_grid: "zeros Y X = grid Y X (\<lambda>_ _. False)"
  by (simp add: zeros_def grid_def)

lemma grid_cong:
  "(\<And>a b. a \<in> set Y \<Longrightarrow> b \<in> set X \<Longrightarrow> P a b = Q a b) \<Longrightarrow> grid Y X P = grid Y X Q"
  by (simp add: grid_def)


lemma length_grid: "length (grid Y X P) = length Y"
  by (simp add: grid_def)

lemma length_grid_row: "r \<in> set (grid Y X P) \<Longrightarrow> length r = length X"
  by (auto simp: grid_def)

lemma grid_bits: "r \<in> set (grid Y X P) \<Longrightarrow> c \<in> set r \<Longrightarrow> c = 0 \<or> c = 1"
  by (auto simp: grid_def)

lemma mark_grid:
  assumes dY: "distinct Y" and dX: "distinct X"
  shows "mark Y X y x (grid Y X P) = grid Y X (\<lambda>a b. P a b \<or> (a = y \<and> b = x))"
proof (cases "y \<in> set Y \<and> x \<in> set X")
  case False
  then have "indexOf Y y < 0 \<or> indexOf X x < 0"
    by (simp add: indexOf_neg_iff)
  then have "mark Y X y x (grid Y X P) = grid Y X P"
    by (auto simp: mark_def Let_def)
  moreover have "grid Y X P = grid Y X (\<lambda>a b. P a b \<or> (a = y \<and> b = x))"
    using False by (intro grid_cong) auto
  ultimately show ?thesis by simp
next
  case True
  define yi where "yi = nat (indexOf Y y)"
  define xi where "xi = nat (indexOf X x)"
  from True have nonneg: "\<not> indexOf Y y < 0" "\<not> indexOf X x < 0"
    by (simp_all add: indexOf_neg_iff)
  have yi: "yi < length Y" "Y ! yi = y"
    using True nonneg indexOf_bounds [of Y y] by (simp_all add: yi_def indexOf_nth)
  have xi: "xi < length X" "X ! xi = x"
    using True nonneg indexOf_bounds [of X x] by (simp_all add: xi_def indexOf_nth)
  have m: "mark Y X y x (grid Y X P) = (grid Y X P)[yi := (grid Y X P ! yi)[xi := 1]]"
    using nonneg by (simp add: mark_def Let_def yi_def xi_def)
  have yeq: "Y ! i = y \<longleftrightarrow> i = yi" if "i < length Y" for i
    using that yi dY by (auto simp: nth_eq_iff_index_eq)
  have xeq: "X ! j = x \<longleftrightarrow> j = xi" if "j < length X" for j
    using that xi dX by (auto simp: nth_eq_iff_index_eq)
  show ?thesis
    unfolding m
  proof (rule nth_equalityI)
    show "length ((grid Y X P)[yi := (grid Y X P ! yi)[xi := 1]])
        = length (grid Y X (\<lambda>a b. P a b \<or> a = y \<and> b = x))"
      by (simp add: grid_def)
  next
    fix i
    assume "i < length ((grid Y X P)[yi := (grid Y X P ! yi)[xi := 1]])"
    then have i: "i < length Y" by (simp add: grid_def)
    show "(grid Y X P)[yi := (grid Y X P ! yi)[xi := 1]] ! i
        = grid Y X (\<lambda>a b. P a b \<or> a = y \<and> b = x) ! i"
    proof (rule nth_equalityI)
      show "length ((grid Y X P)[yi := (grid Y X P ! yi)[xi := 1]] ! i)
          = length (grid Y X (\<lambda>a b. P a b \<or> a = y \<and> b = x) ! i)"
        using i yi by (cases "i = yi") (simp_all add: grid_def)
    next
      fix j
      assume "j < length ((grid Y X P)[yi := (grid Y X P ! yi)[xi := 1]] ! i)"
      then have j: "j < length X"
        using i yi by (cases "i = yi") (simp_all add: grid_def)
      show "(grid Y X P)[yi := (grid Y X P ! yi)[xi := 1]] ! i ! j
          = grid Y X (\<lambda>a b. P a b \<or> a = y \<and> b = x) ! i ! j"
        using i j yi xi yeq [OF i] xeq [OF j]
        by (cases "i = yi"; cases "j = xi") (simp_all add: grid_def)
    qed
  qed
qed

lemma set_add_opt: "set (add_opt ov s) = set s \<union> {v. v \<noteq> [] \<and> ov = Some v}"
  by (cases ov) (auto simp: set_set_add)

lemma distinct_add_opt: "distinct s \<Longrightarrow> distinct (add_opt ov s)"
  by (cases ov) (auto simp: distinct_set_add)

lemma set_fold_add_opt:
  "set (fold (\<lambda>r. add_opt (g r)) rows s) = set s \<union> {v. v \<noteq> [] \<and> (\<exists>r \<in> set rows. g r = Some v)}"
  by (induction rows arbitrary: s) (auto simp: set_add_opt)

lemma distinct_fold_add_opt:
  "distinct s \<Longrightarrow> distinct (fold (\<lambda>r. add_opt (g r)) rows s)"
  by (induction rows arbitrary: s) (auto simp: distinct_add_opt)

lemma merge_collect_row_eq:
  "merge_collect_row yc xc sc r (ys, xs, ss) =
     (add_opt (Some (axisValue r yc)) ys, add_opt (Some (axisValue r xc)) xs,
      add_opt (secondaryValue r sc) ss)"
  by (cases "secondaryValue r sc") (simp_all add: merge_collect_row_def Let_def)

lemma fold_merge_collect_row:
  "fold (merge_collect_row yc xc sc) rows (ys, xs, ss) =
     (fold (\<lambda>r. add_opt (Some (axisValue r yc))) rows ys,
      fold (\<lambda>r. add_opt (Some (axisValue r xc))) rows xs,
      fold (\<lambda>r. add_opt (secondaryValue r sc)) rows ss)"
  by (induction rows arbitrary: ys xs ss) (simp_all add: merge_collect_row_eq)

lemma collect_row_eq:
  "collect_row yc xc sc r (ys, xs, sso) =
     (add_opt (Some (axisValue r yc)) ys, add_opt (Some (axisValue r xc)) xs,
      map_option (add_opt (secondaryValue r sc)) sso)"
  by (cases "secondaryValue r sc"; cases sso) (simp_all add: collect_row_def Let_def)

lemma fold_collect_row:
  "fold (collect_row yc xc sc) rows (ys, xs, sso) =
     (fold (\<lambda>r. add_opt (Some (axisValue r yc))) rows ys,
      fold (\<lambda>r. add_opt (Some (axisValue r xc))) rows xs,
      map_option (fold (\<lambda>r. add_opt (secondaryValue r sc)) rows) sso)"
  by (induction rows arbitrary: ys xs sso)
     (simp_all add: collect_row_eq option.map_comp comp_def option.map_id0)

lemma mark_row_grid:
  assumes "distinct Y" "distinct X"
  shows "mark_row yc xc Y X r (grid Y X P) =
     grid Y X (\<lambda>a b. P a b \<or> row_hits yc xc sc None [r] a b)"
proof (cases "axisValue r yc \<noteq> [] \<and> axisValue r xc \<noteq> []")
  case True
  then show ?thesis
    using mark_grid [OF assms, of "axisValue r yc" "axisValue r xc" P]
    by (auto simp: mark_row_def Let_def row_hits_def intro!: grid_cong)
next
  case False
  then show ?thesis
    by (auto simp: mark_row_def Let_def row_hits_def intro!: grid_cong)
qed

lemma mark_row_sec_grid:
  assumes "distinct Y" "distinct X"
  shows "mark_row_sec yc xc sc s Y X r (grid Y X P) =
     grid Y X (\<lambda>a b. P a b \<or> row_hits yc xc sc (Some s) [r] a b)"
proof (cases "axisValue r yc \<noteq> [] \<and> axisValue r xc \<noteq> [] \<and> secondaryValue r sc = Some s")
  case True
  then show ?thesis
    using mark_grid [OF assms, of "axisValue r yc" "axisValue r xc" P]
    by (auto simp: mark_row_sec_def Let_def row_hits_def intro!: grid_cong)
next
  case False
  then show ?thesis
    by (auto simp: mark_row_sec_def Let_def row_hits_def intro!: grid_cong)
qed

lemma row_hits_Cons:
  "row_hits yc xc sc sec (r # rows) a b \<longleftrightarrow>
     row_hits yc xc sc sec [r] a b \<or> row_hits yc xc sc sec rows a b"
  by (auto simp: row_hits_def)

lemma row_hits_Nil: "\<not> row_hits yc xc sc sec [] a b"
  by (simp add: row_hits_def)

lemma fold_mark_row_grid:
  assumes "distinct Y" "distinct X"
  shows "fold (mark_row yc xc Y X) rows (grid Y X P) =
     grid Y X (\<lambda>a b. P a b \<or> row_hits yc xc sc None rows a b)"
proof (induction rows arbitrary: P)
  case Nil
  then show ?case by (simp add: row_hits_Nil)
next
  case (Cons r rows)
  show ?case
    by (simp add: mark_row_grid [OF assms, where sc = sc] Cons.IH)
       (auto simp: row_hits_Cons [of yc xc sc None r rows] intro!: grid_cong)
qed

lemma fold_mark_row_sec_grid:
  assumes "distinct Y" "distinct X"
  shows "fold (mark_row_sec yc xc sc s Y X) rows (grid Y X P) =
     grid Y X (\<lambda>a b. P a b \<or> row_hits yc xc sc (Some s) rows a b)"
proof (induction rows arbitrary: P)
  case Nil
  then show ?case by (simp add: row_hits_Nil)
next
  case (Cons r rows)
  show ?case
    by (simp add: mark_row_sec_grid [OF assms] Cons.IH)
       (auto simp: row_hits_Cons [of yc xc sc "Some s" r rows] intro!: grid_cong)
qed

lemma foldE_Inr:
  "(\<And>x s. x \<in> set xs \<Longrightarrow> f x s = Inr (g x s)) \<Longrightarrow> foldE f xs s = Inr (fold g xs s)"
  by (induction xs arbitrary: s) simp_all

lemma fold_snoc_map: "fold (\<lambda>x ms. ms @ [f x]) xs ms = ms @ map f xs"
  by (induction xs arbitrary: ms) simp_all

lemma lookup_sheet_in_range:
  "fileIndex src < length fileData \<Longrightarrow> \<exists>r. lookup_sheet fileData src = Inr r"
  by (simp add: lookup_sheet_def)

lemma lookup_sheet_error:
  "\<not> fileIndex src < length fileData \<Longrightarrow> lookup_sheet fileData src = Inl TypeError"
  by (simp add: lookup_sheet_def)

lemma collected_Nil: "collected fd [] g = {}"
  by (simp add: collected_def)

lemma collected_Cons: "collected fd (src # srcs) g = collected fd [src] g \<union> collected fd srcs g"
  by (auto simp: collected_def)

lemma collected_single_Some:
  "lookup_sheet fd src = Inr (Some sh) \<Longrightarrow>
     collected fd [src] g = {v. v \<noteq> [] \<and> (\<exists>r \<in> set (sheet_data sh). g src r = Some v)}"
  by (auto simp: collected_def)

lemma collected_single_None: "lookup_sheet fd src = Inr None \<Longrightarrow> collected fd [src] g = {}"
  by (auto simp: collected_def)


lemma hit_Nil: "\<not> hit fd cs [] sec a b"
  by (simp add: hit_def)

lemma hit_Cons: "hit fd cs (src # srcs) sec a b \<longleftrightarrow> hit fd cs [src] sec a b \<or> hit fd cs srcs sec a b"
  by (auto simp: hit_def)

lemma hit_single_Some:
  "lookup_sheet fd src = Inr (Some sh) \<Longrightarrow>
     hit fd cs [src] sec a b \<longleftrightarrow>
       row_hits (yCol cs src) (xCol cs src) (secondaryXCol cs src) sec (sheet_data sh) a b"
  by (simp add: hit_def)

lemma hit_single_None: "lookup_sheet fd src = Inr None \<Longrightarrow> \<not> hit fd cs [src] sec a b"
  by (simp add: hit_def)

text \<open>The collecting loop of merge mode.\<close>

lemma merge_collect_sources:
  assumes "\<forall>src \<in> set srcs. fileIndex src < length fd"
  shows "\<exists>ys' xs' ss'.
     foldE (merge_collect_source fd cs) srcs (ys, xs, ss) = Inr (ys', xs', ss') \<and>
     set ys' = set ys \<union> collected fd srcs (yValOf cs) \<and>
     set xs' = set xs \<union> collected fd srcs (xValOf cs) \<and>
     set ss' = set ss \<union> collected fd srcs (secValOf cs) \<and>
     (distinct ys \<longrightarrow> distinct ys') \<and> (distinct xs \<longrightarrow> distinct xs') \<and>
     (distinct ss \<longrightarrow> distinct ss')"
  using assms
proof (induction srcs arbitrary: ys xs ss)
  case Nil
  then show ?case by (simp add: collected_Nil)
next
  case (Cons src srcs)
  from Cons.prems have rest: "\<forall>src \<in> set srcs. fileIndex src < length fd" by simp
  from Cons.prems obtain r where r: "lookup_sheet fd src = Inr r"
    using lookup_sheet_in_range [of src fd] by auto
  show ?case
  proof (cases r)
    case None
    with r have l: "lookup_sheet fd src = Inr None" by simp
    have step: "merge_collect_source fd cs src (ys, xs, ss) = Inr (ys, xs, ss)"
      by (simp add: merge_collect_source_def l)
    from Cons.IH [OF rest, of ys xs ss] show ?thesis
      by (subst (1 2 3) collected_Cons) (simp add: step collected_single_None [OF l])
  next
    case (Some sh)
    with r have l: "lookup_sheet fd src = Inr (Some sh)" by simp
    define ys1 where "ys1 = fold (\<lambda>r. add_opt (yValOf cs src r)) (sheet_data sh) ys"
    define xs1 where "xs1 = fold (\<lambda>r. add_opt (xValOf cs src r)) (sheet_data sh) xs"
    define ss1 where "ss1 = fold (\<lambda>r. add_opt (secValOf cs src r)) (sheet_data sh) ss"
    have step: "merge_collect_source fd cs src (ys, xs, ss) = Inr (ys1, xs1, ss1)"
      by (simp add: merge_collect_source_def l fold_merge_collect_row ys1_def xs1_def ss1_def
            yValOf_def xValOf_def secValOf_def)
    have sets: "set ys1 = set ys \<union> collected fd [src] (yValOf cs)"
      "set xs1 = set xs \<union> collected fd [src] (xValOf cs)"
      "set ss1 = set ss \<union> collected fd [src] (secValOf cs)"
      by (simp_all add: ys1_def xs1_def ss1_def set_fold_add_opt collected_single_Some [OF l])
    have dists: "distinct ys \<longrightarrow> distinct ys1" "distinct xs \<longrightarrow> distinct xs1"
      "distinct ss \<longrightarrow> distinct ss1"
      by (simp_all add: ys1_def xs1_def ss1_def distinct_fold_add_opt)
    from Cons.IH [OF rest, of ys1 xs1 ss1] sets dists show ?thesis
      by (subst (1 2 3) collected_Cons) (auto simp: step)
  qed
qed

text \<open>The marking loops of merge mode.\<close>

lemma merge_mark_sources:
  assumes "\<forall>src \<in> set srcs. fileIndex src < length fd" and dY: "distinct Y" and dX: "distinct X"
  shows "foldE (merge_mark_source fd cs Y X) srcs (grid Y X P) =
     Inr (grid Y X (\<lambda>a b. P a b \<or> hit fd cs srcs None a b))"
  using assms(1)
proof (induction srcs arbitrary: P)
  case Nil
  then show ?case by (simp add: hit_Nil)
next
  case (Cons src srcs)
  from Cons.prems have rest: "\<forall>src \<in> set srcs. fileIndex src < length fd" by simp
  from Cons.prems obtain r where r: "lookup_sheet fd src = Inr r"
    using lookup_sheet_in_range [of src fd] by auto
  show ?case
  proof (cases r)
    case None
    with r have l: "lookup_sheet fd src = Inr None" by simp
    have step: "merge_mark_source fd cs Y X src (grid Y X P) = Inr (grid Y X P)"
      by (simp add: merge_mark_source_def l)
    show ?thesis
      by (simp add: step Cons.IH [OF rest] hit_Cons [of fd cs src srcs]
            hit_single_None [OF l])
  next
    case (Some sh)
    with r have l: "lookup_sheet fd src = Inr (Some sh)" by simp
    have step: "merge_mark_source fd cs Y X src (grid Y X P) =
        Inr (grid Y X (\<lambda>a b. P a b \<or> hit fd cs [src] None a b))"
      by (simp add: merge_mark_source_def l hit_single_Some [OF l]
            fold_mark_row_grid [OF dY dX, where sc = "secondaryXCol cs src"])
    show ?thesis
      by (simp add: step Cons.IH [OF rest])
         (auto simp: hit_Cons [of fd cs src srcs] intro!: grid_cong)
  qed
qed

lemma merge_mark_sec_sources:
  assumes "\<forall>src \<in> set srcs. fileIndex src < length fd" and dY: "distinct Y" and dX: "distinct X"
  shows "foldE (merge_mark_sec_source fd cs s Y X) srcs (grid Y X P) =
     Inr (grid Y X (\<lambda>a b. P a b \<or> hit fd cs srcs (Some s) a b))"
  using assms(1)
proof (induction srcs arbitrary: P)
  case Nil
  then show ?case by (simp add: hit_Nil)
next
  case (Cons src srcs)
  from Cons.prems have rest: "\<forall>src \<in> set srcs. fileIndex src < length fd" by simp
  from Cons.prems obtain r where r: "lookup_sheet fd src = Inr r"
    using lookup_sheet_in_range [of src fd] by auto
  show ?case
  proof (cases r)
    case None
    with r have l: "lookup_sheet fd src = Inr None" by simp
    have step: "merge_mark_sec_source fd cs s Y X src (grid Y X P) = Inr (grid Y X P)"
      by (simp add: merge_mark_sec_source_def l)
    show ?thesis
      by (simp add: step Cons.IH [OF rest] hit_Cons [of fd cs src srcs]
            hit_single_None [OF l])
  next
    case (Some sh)
    with r have l: "lookup_sheet fd src = Inr (Some sh)" by simp
    have step: "merge_mark_sec_source fd cs s Y X src (grid Y X P) =
        Inr (grid Y X (\<lambda>a b. P a b \<or> hit fd cs [src] (Some s) a b))"
      by (simp add: merge_mark_sec_source_def l hit_single_Some [OF l]
            fold_mark_row_sec_grid [OF dY dX])
    show ?thesis
      by (simp add: step Cons.IH [OF rest])
         (auto simp: hit_Cons [of fd cs src srcs] intro!: grid_cong)
  qed
qed

lemma sec_collected_selected:
  assumes "v \<in> collected fd srcs (secValOf cs)"
  shows "list_ex (\<lambda>src. selected (secondaryXCol cs src)) srcs"
proof -
  from assms obtain src r where "src \<in> set srcs" "secondaryValue r (secondaryXCol cs src) = Some v"
    by (auto simp: collected_def secValOf_def)
  then have "src \<in> set srcs \<and> selected (secondaryXCol cs src)"
    by (auto simp: secondaryValue_def split: if_splits)
  then show ?thesis by (auto simp: list_ex_iff)
qed

text \<open>Merge mode gives the matrices of the whole group of sources.\<close>

lemma merge_config_built:
  assumes ok: "\<forall>src \<in> set (sources cfg). fileIndex src < length fd"
  shows "merge_config fd cs cfg ms = Inr (ms @ built fd cs (sources cfg) (config_name cfg))"
proof -
  from merge_collect_sources [OF ok, of cs "[]" "[]" "[]"]
  obtain ys xs ss where
    run: "foldE (merge_collect_source fd cs) (sources cfg) ([], [], []) = Inr (ys, xs, ss)"
    and sets: "set ys = collected fd (sources cfg) (yValOf cs)"
      "set xs = collected fd (sources cfg) (xValOf cs)"
      "set ss = collected fd (sources cfg) (secValOf cs)"
    and dist: "distinct ys" "distinct xs" "distinct ss"
    by auto
  define Y where "Y = sort ys"
  define X where "X = sort xs"
  define S where "S = sort ss"
  have Y: "Y = sorted_list_of_set (collected fd (sources cfg) (yValOf cs))"
    and X: "X = sorted_list_of_set (collected fd (sources cfg) (xValOf cs))"
    and S: "S = sorted_list_of_set (collected fd (sources cfg) (secValOf cs))"
    using sets dist by (simp_all add: Y_def X_def S_def sort_distinct_eq)
  have dY: "distinct Y" and dX: "distinct X"
    using dist by (simp_all add: Y_def X_def)
  have marks: "foldE (merge_mark_source fd cs Y X) (sources cfg) (zeros Y X) =
      Inr (grid Y X (hit fd cs (sources cfg) None))"
    by (simp add: zeros_grid merge_mark_sources [OF ok dY dX])
  have marks_sec: "foldE (merge_mark_sec_source fd cs s Y X) (sources cfg) (zeros Y X) =
      Inr (grid Y X (hit fd cs (sources cfg) (Some s)))" for s
    by (simp add: zeros_grid merge_mark_sec_sources [OF ok dY dX])
  show ?thesis
  proof (cases "S = []")
    case True
    then have "(if list_ex (\<lambda>src. selected (secondaryXCol cs src)) (sources cfg)
                then Some (sort ss) else None) \<in> {None, Some []}"
      by (simp add: S_def)
    then have "merge_config fd cs cfg ms =
        Inr (ms @ [\<lparr> name = config_name cfg, yAxis = Y, xAxis = X,
                      data = grid Y X (hit fd cs (sources cfg) None) \<rparr>])"
      by (auto simp: merge_config_def run Let_def marks [unfolded Y_def X_def] Y_def X_def)
    with True show ?thesis
      by (simp add: built_def Let_def Y [symmetric] X [symmetric] S [symmetric])
  next
    case False
    then obtain s0 rest where S0: "S = s0 # rest" by (cases S) auto
    from False have "set ss \<noteq> {}" by (auto simp: S_def)
    then obtain v where "v \<in> collected fd (sources cfg) (secValOf cs)"
      using sets by auto
    then have has: "list_ex (\<lambda>src. selected (secondaryXCol cs src)) (sources cfg)"
      by (rule sec_collected_selected)
    have loop: "foldE (\<lambda>secX ms.
          case foldE (merge_mark_sec_source fd cs secX Y X) (sources cfg) (zeros Y X) of
            Inl e \<Rightarrow> Inl e
          | Inr d \<Rightarrow> Inr (ms @ [\<lparr> name = config_name cfg @ '' - '' @ secX,
                                   yAxis = Y, xAxis = X, data = d \<rparr>])) S ms =
        Inr (ms @ map (\<lambda>s. \<lparr> name = config_name cfg @ '' - '' @ s, yAxis = Y, xAxis = X,
                               data = grid Y X (hit fd cs (sources cfg) (Some s)) \<rparr>) S)"
      by (subst foldE_Inr [where g = "\<lambda>s ms. ms @ [\<lparr> name = config_name cfg @ '' - '' @ s,
              yAxis = Y, xAxis = X, data = grid Y X (hit fd cs (sources cfg) (Some s)) \<rparr>]"])
         (simp_all add: marks_sec fold_snoc_map)
    have "merge_config fd cs cfg ms =
        Inr (ms @ map (\<lambda>s. \<lparr> name = config_name cfg @ '' - '' @ s, yAxis = Y, xAxis = X,
                               data = grid Y X (hit fd cs (sources cfg) (Some s)) \<rparr>) S)"
      using loop S0
      by (simp add: merge_config_def run Let_def has Y_def [symmetric] X_def [symmetric]
            S_def [symmetric])
    with False show ?thesis
      by (simp add: built_def Let_def Y [symmetric] X [symmetric] S [symmetric])
  qed
qed

lemma hit_single_fun:
  "lookup_sheet fd src = Inr (Some sh) \<Longrightarrow>
     hit fd cs [src] sec =
       row_hits (yCol cs src) (xCol cs src) (secondaryXCol cs src) sec (sheet_data sh)"
  by (intro ext) (simp add: hit_single_Some)

text \<open>Independent mode gives the matrices of the one source.\<close>

lemma independent_source_built:
  assumes l: "lookup_sheet fd src = Inr (Some sh)"
  shows "independent_source fd cs src ms =
     Inr (ms @ built fd cs [src] (source_fileName src @ '' - '' @ sheetName src))"
proof -
  define yc where "yc = yCol cs src"
  define xc where "xc = xCol cs src"
  define sc where "sc = secondaryXCol cs src"
  define rows where "rows = sheet_data sh"
  define nm where "nm = source_fileName src @ '' - '' @ sheetName src"
  define ys where "ys = fold (\<lambda>r. add_opt (yValOf cs src r)) rows []"
  define xs where "xs = fold (\<lambda>r. add_opt (xValOf cs src r)) rows []"
  define ss where "ss = fold (\<lambda>r. add_opt (secValOf cs src r)) rows []"
  define Y where "Y = sort ys"
  define X where "X = sort xs"
  define S where "S = sort ss"
  have acc: "fold (collect_row yc xc sc) rows ([], [], if selected sc then Some [] else None) =
      (ys, xs, if selected sc then Some ss else None)"
    by (simp add: fold_collect_row ys_def xs_def ss_def yValOf_def xValOf_def secValOf_def
          yc_def xc_def sc_def)
  have sets: "set ys = collected fd [src] (yValOf cs)" "set xs = collected fd [src] (xValOf cs)"
    "set ss = collected fd [src] (secValOf cs)"
    by (simp_all add: ys_def xs_def ss_def set_fold_add_opt collected_single_Some [OF l] rows_def)
  have dist: "distinct ys" "distinct xs" "distinct ss"
    by (simp_all add: ys_def xs_def ss_def distinct_fold_add_opt)
  have Y: "Y = sorted_list_of_set (collected fd [src] (yValOf cs))"
    and X: "X = sorted_list_of_set (collected fd [src] (xValOf cs))"
    and S: "S = sorted_list_of_set (collected fd [src] (secValOf cs))"
    using sets dist by (simp_all add: Y_def X_def S_def sort_distinct_eq)
  have dY: "distinct Y" and dX: "distinct X"
    using dist by (simp_all add: Y_def X_def)
  have marks: "fold (mark_row yc xc Y X) rows (zeros Y X) = grid Y X (hit fd cs [src] None)"
    by (simp add: zeros_grid fold_mark_row_grid [OF dY dX, where sc = sc]
          hit_single_fun [OF l] yc_def xc_def sc_def rows_def)
  have marks_sec: "fold (mark_row_sec yc xc sc s Y X) rows (zeros Y X) =
      grid Y X (hit fd cs [src] (Some s))" for s
    by (simp add: zeros_grid fold_mark_row_sec_grid [OF dY dX]
          hit_single_fun [OF l] yc_def xc_def sc_def rows_def)
  have unsel: "S = []" if "\<not> selected sc"
  proof -
    have "collected fd [src] (secValOf cs) = {}"
      using that by (auto simp: collected_def secValOf_def secondaryValue_def sc_def)
    then show ?thesis by (simp add: S)
  qed
  have body: "independent_source fd cs src ms =
      (case (if selected sc then Some S else None) of
         Some (s # rest) \<Rightarrow>
           Inr (ms @ map (\<lambda>secX. \<lparr> name = nm @ '' - '' @ secX, yAxis = Y, xAxis = X,
                   data = fold (mark_row_sec yc xc sc secX Y X) rows (zeros Y X) \<rparr>) (s # rest))
       | _ \<Rightarrow> Inr (ms @ [\<lparr> name = nm, yAxis = Y, xAxis = X,
                   data = fold (mark_row yc xc Y X) rows (zeros Y X) \<rparr>]))"
  proof (cases "selected sc")
    case True
    with acc have "fold (collect_row (yCol cs src) (xCol cs src) (secondaryXCol cs src))
        (sheet_data sh) ([], [], Some []) = (ys, xs, Some ss)"
      by (simp add: yc_def xc_def sc_def rows_def)
    with True show ?thesis
      unfolding independent_source_def l
      by (simp add: Let_def yc_def xc_def sc_def rows_def nm_def Y_def X_def S_def
            split: list.splits)
  next
    case False
    with acc have "fold (collect_row (yCol cs src) (xCol cs src) (secondaryXCol cs src))
        (sheet_data sh) ([], [], None) = (ys, xs, None)"
      by (simp add: yc_def xc_def sc_def rows_def)
    with False show ?thesis
      unfolding independent_source_def l
      by (simp add: Let_def yc_def xc_def sc_def rows_def nm_def Y_def X_def S_def
            split: list.splits)
  qed
  show ?thesis
  proof (cases "S = []")
    case True
    then have "independent_source fd cs src ms =
        Inr (ms @ [\<lparr> name = nm, yAxis = Y, xAxis = X, data = grid Y X (hit fd cs [src] None) \<rparr>])"
      by (simp add: body marks)
    with True show ?thesis
      by (simp add: built_def Let_def Y [symmetric] X [symmetric] S [symmetric] nm_def)
  next
    case False
    then obtain s0 rest where S0: "S = s0 # rest" by (cases S) auto
    from False unsel have sel: "selected sc" by blast
    have "independent_source fd cs src ms =
        Inr (ms @ map (\<lambda>s. \<lparr> name = nm @ '' - '' @ s, yAxis = Y, xAxis = X,
                               data = grid Y X (hit fd cs [src] (Some s)) \<rparr>) S)"
      by (simp add: body sel S0 marks_sec)
    with False show ?thesis
      by (simp add: built_def Let_def Y [symmetric] X [symmetric] S [symmetric] nm_def)
  qed
qed

lemma independent_source_matrices:
  assumes "fileIndex src < length fd"
  shows "independent_source fd cs src ms = Inr (ms @ source_matrices fd cs src)"
proof -
  from assms obtain r where r: "lookup_sheet fd src = Inr r"
    using lookup_sheet_in_range by blast
  show ?thesis
  proof (cases r)
    case None
    with r show ?thesis by (simp add: independent_source_def source_matrices_def)
  next
    case (Some sh)
    with r have "lookup_sheet fd src = Inr (Some sh)" by simp
    then show ?thesis
      by (simp add: independent_source_built source_matrices_def)
  qed
qed

lemma independent_sources_matrices:
  assumes "\<forall>src \<in> set srcs. fileIndex src < length fd"
  shows "foldE (independent_source fd cs) srcs ms =
     Inr (ms @ concat (map (source_matrices fd cs) srcs))"
  using assms by (induction srcs arbitrary: ms) (simp_all add: independent_source_matrices)

text \<open>The whole run, when every source names a file.\<close>

lemma config_step_matrices:
  assumes "\<forall>src \<in> set (sources cfg). fileIndex src < length fd"
  shows "(if merge cfg then merge_config fd cs cfg ms
          else foldE (independent_source fd cs) (sources cfg) ms) =
     Inr (ms @ config_matrices fd cs cfg)"
  using assms
  by (simp add: config_matrices_def merge_config_built independent_sources_matrices)

lemma computeMatrices_loop:
  assumes "in_range fd cfgs"
  shows "foldE (\<lambda>cfg matrices.
        if merge cfg then merge_config fd cs cfg matrices
        else foldE (independent_source fd cs) (sources cfg) matrices) cfgs ms =
     Inr (ms @ concat (map (config_matrices fd cs) cfgs))"
  using assms
proof (induction cfgs arbitrary: ms)
  case Nil
  then show ?case by simp
next
  case (Cons cfg cfgs)
  from Cons.prems have here: "\<forall>src \<in> set (sources cfg). fileIndex src < length fd"
    and rest: "in_range fd cfgs"
    by (simp_all add: in_range_def)
  show ?case
    using config_step_matrices [OF here, of cs ms] Cons.IH [OF rest]
    by simp
qed

lemma computeMatrices_eq:
  assumes "in_range fd cfgs"
  shows "computeMatrices fd tabs cs cfgs = Inr (concat (map (config_matrices fd cs) cfgs))"
  using computeMatrices_loop [OF assms, of cs "[]"] by (simp add: computeMatrices_def)

text \<open>A source outside \<open>fileData\<close> makes the run throw.\<close>

lemma error_is_TypeError: "(e :: error) = TypeError"
  by (cases e) simp

lemma foldE_fail:
  assumes "x \<in> set xs" and "\<And>s. f x s = Inl TypeError"
  shows "foldE f xs s = Inl TypeError"
  using assms(1)
proof (induction xs arbitrary: s)
  case Nil
  then show ?case by simp
next
  case (Cons y ys)
  show ?case
  proof (cases "f y s")
    case (Inl e)
    then show ?thesis by (simp add: error_is_TypeError [of e])
  next
    case (Inr s')
    with assms(2) [of s] have "y \<noteq> x" by auto
    with Cons.prems have "x \<in> set ys" by simp
    with Inr Cons.IH show ?thesis by simp
  qed
qed

lemma config_step_fail:
  assumes "src \<in> set (sources cfg)" and "\<not> fileIndex src < length fd"
  shows "(if merge cfg then merge_config fd cs cfg ms
          else foldE (independent_source fd cs) (sources cfg) ms) = Inl TypeError"
proof -
  have l: "lookup_sheet fd src = Inl TypeError"
    using assms(2) by (rule lookup_sheet_error)
  have "foldE (merge_collect_source fd cs) (sources cfg) ([], [], []) = Inl TypeError"
    by (rule foldE_fail [OF assms(1)]) (simp add: merge_collect_source_def l)
  then have "merge_config fd cs cfg ms = Inl TypeError"
    by (simp add: merge_config_def)
  moreover have "foldE (independent_source fd cs) (sources cfg) ms = Inl TypeError"
    by (rule foldE_fail [OF assms(1)]) (simp add: independent_source_def l)
  ultimately show ?thesis by simp
qed

lemma computeMatrices_fail:
  assumes "\<not> in_range fd cfgs"
  shows "computeMatrices fd tabs cs cfgs = Inl TypeError"
proof -
  from assms obtain cfg src where
    "cfg \<in> set cfgs" "src \<in> set (sources cfg)" "\<not> fileIndex src < length fd"
    by (auto simp: in_range_def)
  then show ?thesis
    unfolding computeMatrices_def
    by (intro foldE_fail [where x = cfg]) (simp_all add: config_step_fail)
qed

lemma computeMatrices_Inr_iff:
  "computeMatrices fd tabs cs cfgs = Inr ms \<longleftrightarrow>
     in_range fd cfgs \<and> ms = concat (map (config_matrices fd cs) cfgs)"
  using computeMatrices_eq [of fd cfgs tabs cs] computeMatrices_fail [of fd cfgs tabs cs]
  by (cases "in_range fd cfgs") auto

text \<open>The shape of the matrices of a group of sources.\<close>

lemma built_shape:
  assumes "m \<in> set (built fd cs srcs nm)"
  shows "yAxis m = sorted_list_of_set (collected fd srcs (yValOf cs)) \<and>
         xAxis m = sorted_list_of_set (collected fd srcs (xValOf cs)) \<and>
         (\<exists>sec. data m = grid (yAxis m) (xAxis m) (hit fd cs srcs sec))"
  using assms by (auto simp: built_def Let_def split: if_splits)


lemma config_matrices_shape:
  assumes "m \<in> set (config_matrices fd cs cfg)"
  shows "\<exists>srcs sec. set srcs \<subseteq> set (sources cfg) \<and>
           yAxis m = sorted_list_of_set (collected fd srcs (yValOf cs)) \<and>
           xAxis m = sorted_list_of_set (collected fd srcs (xValOf cs)) \<and>
           data m = grid (yAxis m) (xAxis m) (hit fd cs srcs sec)"
proof (cases "merge cfg")
  case True
  with assms have "m \<in> set (built fd cs (sources cfg) (config_name cfg))"
    by (simp add: config_matrices_def)
  from built_shape [OF this] show ?thesis by blast
next
  case False
  with assms obtain src where src: "src \<in> set (sources cfg)"
    and "m \<in> set (source_matrices fd cs src)"
    by (auto simp: config_matrices_def)
  then have "m \<in> set (built fd cs [src] (source_fileName src @ '' - '' @ sheetName src))"
    by (auto simp: source_matrices_def split: sum.splits option.splits)
  from built_shape [OF this] src show ?thesis
    by (intro exI [of _ "[src]"]) auto
qed

section \<open>The claims\<close>

lemma produced_matrix_shape:
  assumes "computeMatrices fd tabs cs cfgs = Inr ms" and "m \<in> set ms"
  shows "\<exists>srcs sec.
           yAxis m = sorted_list_of_set (collected fd srcs (yValOf cs)) \<and>
           xAxis m = sorted_list_of_set (collected fd srcs (xValOf cs)) \<and>
           data m = grid (yAxis m) (xAxis m) (hit fd cs srcs sec)"
proof -
  from assms obtain cfg where "m \<in> set (config_matrices fd cs cfg)"
    by (auto simp: computeMatrices_Inr_iff)
  from config_matrices_shape [OF this] show ?thesis by blast
qed

text \<open>
  C9. Every matrix that \<open>computeMatrices\<close> produces has as many cell rows as \<open>yAxis\<close> has
  entries, every cell row is as long as \<open>xAxis\<close>, and every cell is 0 or 1.
\<close>

theorem C9_grid_invariant:
  assumes "computeMatrices fileData selectedTabs columnSelections matrixConfig = Inr matrices"
    and "m \<in> set matrices"
  shows "length (data m) = length (yAxis m) \<and>
         (\<forall>r \<in> set (data m). length r = length (xAxis m) \<and> (\<forall>c \<in> set r. c = 0 \<or> c = 1))"
proof -
  from produced_matrix_shape [OF assms] obtain P where
    d: "data m = grid (yAxis m) (xAxis m) P"
    by blast
  have "length (data m) = length (yAxis m)"
    by (subst d) (rule length_grid)
  moreover have "length r = length (xAxis m)" if "r \<in> set (data m)" for r
    using that length_grid_row [of r "yAxis m" "xAxis m" P] by (simp add: d [symmetric])
  moreover have "c = 0 \<or> c = 1" if "r \<in> set (data m)" "c \<in> set r" for r c
    using that grid_bits [of r "yAxis m" "xAxis m" P c] by (simp add: d [symmetric])
  ultimately show ?thesis by blast
qed

theorem C9_grid_invariant_witness:
  "computeMatrices (scenario_files scenario_B_rows) () (scenario_selections (Some ''Dept''))
     [scenario_config True, scenario_config False] =
   Inr [\<lparr> name = ''staff - Eng'', yAxis = [''Alice'', ''Bob''], xAxis = [''Admin'', ''Editor''],
           data = [[0, 1], [0, 0]] \<rparr>,
        \<lparr> name = ''staff - HR'', yAxis = [''Alice'', ''Bob''], xAxis = [''Admin'', ''Editor''],
           data = [[1, 0], [1, 0]] \<rparr>,
        \<lparr> name = ''staff.csv - staff - Eng'', yAxis = [''Alice'', ''Bob''],
           xAxis = [''Admin'', ''Editor''], data = [[0, 1], [0, 0]] \<rparr>,
        \<lparr> name = ''staff.csv - staff - HR'', yAxis = [''Alice'', ''Bob''],
           xAxis = [''Admin'', ''Editor''], data = [[1, 0], [1, 0]] \<rparr>] \<and>
   length [[1, 0], [1, 0 :: nat]] = length [''Alice'', ''Bob''] \<and>
   list_all (\<lambda>r. length r = length [''Admin'', ''Editor''] \<and> list_all (\<lambda>c. c = 0 \<or> c = 1) r)
     [[1, 0], [1, 0 :: nat]]"
proof -
  let ?m = "\<lparr> name = ''staff - HR'', yAxis = [''Alice'', ''Bob''], xAxis = [''Admin'', ''Editor''],
              data = [[1, 0], [1, 0]] \<rparr>"
  have run: "computeMatrices (scenario_files scenario_B_rows) () (scenario_selections (Some ''Dept''))
     [scenario_config True, scenario_config False] =
   Inr [\<lparr> name = ''staff - Eng'', yAxis = [''Alice'', ''Bob''], xAxis = [''Admin'', ''Editor''],
           data = [[0, 1], [0, 0]] \<rparr>,
        ?m,
        \<lparr> name = ''staff.csv - staff - Eng'', yAxis = [''Alice'', ''Bob''],
           xAxis = [''Admin'', ''Editor''], data = [[0, 1], [0, 0]] \<rparr>,
        \<lparr> name = ''staff.csv - staff - HR'', yAxis = [''Alice'', ''Bob''],
           xAxis = [''Admin'', ''Editor''], data = [[1, 0], [1, 0]] \<rparr>]"
    by code_simp
  from C9_grid_invariant [OF run, of ?m] run show ?thesis by simp
qed



text \<open>
  C10. A config with an empty list of sources does not make \<open>computeMatrices\<close> fail: in
  merge mode it gives one matrix named after the config, with empty axes and an empty
  grid; in independent mode it gives no matrix. The configs before and after it give
  what they give on their own.
\<close>

theorem C10_empty_sources:
  assumes "sources cfg = []"
  shows "computeMatrices fileData selectedTabs columnSelections (before @ cfg # after) =
     (case (computeMatrices fileData selectedTabs columnSelections before,
            computeMatrices fileData selectedTabs columnSelections after) of
        (Inr ms1, Inr ms2) \<Rightarrow>
          Inr (ms1 @ (if merge cfg
                      then [\<lparr> name = config_name cfg, yAxis = [], xAxis = [], data = [] \<rparr>]
                      else []) @ ms2)
      | _ \<Rightarrow> Inl TypeError)"
proof -
  have here: "config_matrices fileData columnSelections cfg =
      (if merge cfg then [\<lparr> name = config_name cfg, yAxis = [], xAxis = [], data = [] \<rparr>] else [])"
    using assms
    by (simp add: config_matrices_def built_def collected_Nil grid_def)
  have range: "in_range fileData (before @ cfg # after) \<longleftrightarrow>
      in_range fileData before \<and> in_range fileData after"
    using assms by (auto simp: in_range_def)
  show ?thesis
  proof (cases "in_range fileData before \<and> in_range fileData after")
    case True
    then show ?thesis
      by (simp add: computeMatrices_eq range here)
  next
    case False
    then have "computeMatrices fileData selectedTabs columnSelections (before @ cfg # after) =
        Inl TypeError"
      by (intro computeMatrices_fail) (simp add: range)
    moreover from False have
      "computeMatrices fileData selectedTabs columnSelections before = Inl TypeError \<or>
       computeMatrices fileData selectedTabs columnSelections after = Inl TypeError"
      using computeMatrices_fail [of fileData before selectedTabs columnSelections]
        computeMatrices_fail [of fileData after selectedTabs columnSelections]
      by auto
    ultimately show ?thesis
      by (auto split: sum.splits simp: error_is_TypeError)
  qed
qed

theorem C10_empty_sources_witness:
  "sources \<lparr> config_name = ''M'', sources = [], merge = True \<rparr> = [] \<and>
   sources \<lparr> config_name = ''M'', sources = [], merge = False \<rparr> = [] \<and>
   computeMatrices (scenario_files scenario_A_rows) () (scenario_selections None)
     [\<lparr> config_name = ''M'', sources = [], merge = True \<rparr>] =
     Inr [\<lparr> name = ''M'', yAxis = [], xAxis = [], data = [] \<rparr>] \<and>
   computeMatrices (scenario_files scenario_A_rows) () (scenario_selections None)
     [\<lparr> config_name = ''M'', sources = [], merge = False \<rparr>] = Inr []"
proof -
  have none: "computeMatrices (scenario_files scenario_A_rows) () (scenario_selections None) [] =
      Inr []"
    by (simp add: computeMatrices_def)
  from none
    C10_empty_sources [of "\<lparr> config_name = ''M'', sources = [], merge = True \<rparr>"
      "scenario_files scenario_A_rows" "()" "scenario_selections None" "[]" "[]"]
    C10_empty_sources [of "\<lparr> config_name = ''M'', sources = [], merge = False \<rparr>"
      "scenario_files scenario_A_rows" "()" "scenario_selections None" "[]" "[]"]
  show ?thesis by simp
qed

lemma lookup_sheet_Some_in_range:
  "lookup_sheet fd src = Inr r \<Longrightarrow> fileIndex src < length fd"
  by (auto simp: lookup_sheet_def split: if_splits)

lemma built_no_split:
  assumes "collected fd srcs (secValOf cs) = {}"
  shows "built fd cs srcs nm =
     [\<lparr> name = nm,
         yAxis = sorted_list_of_set (collected fd srcs (yValOf cs)),
         xAxis = sorted_list_of_set (collected fd srcs (xValOf cs)),
         data = grid (sorted_list_of_set (collected fd srcs (yValOf cs)))
                  (sorted_list_of_set (collected fd srcs (xValOf cs))) (hit fd cs srcs None) \<rparr>]"
  using assms by (simp add: built_def Let_def)







lemma concat_map_singletons:
  "(\<And>x. x \<in> set xs \<Longrightarrow> f x = [g x]) \<Longrightarrow> concat (map f xs) = map g xs"
  by (induction xs) simp_all

text \<open>
  C7. In independent mode, for a config whose sources all resolve to a sheet and none of
  which has a secondary column selected, \<open>computeMatrices\<close> gives exactly one matrix per
  source, in the order of the sources; the matrix of a source is named
  \<open>fileName - sheetName\<close> and is the matrix that the source gives on its own.
\<close>

theorem C7_independent_count:
  assumes "\<not> merge cfg"
    and "\<forall>src \<in> set (sources cfg). \<not> selected (secondaryXCol columnSelections src)"
    and "\<forall>src \<in> set (sources cfg). \<exists>sh. lookup_sheet fileData src = Inr (Some sh)"
  shows "\<exists>ms. computeMatrices fileData selectedTabs columnSelections [cfg] = Inr ms \<and>
           length ms = length (sources cfg) \<and>
           map name ms =
             map (\<lambda>src. source_fileName src @ '' - '' @ sheetName src) (sources cfg) \<and>
           (\<forall>k < length (sources cfg).
              computeMatrices fileData selectedTabs columnSelections
                [cfg\<lparr>sources := [sources cfg ! k]\<rparr>] = Inr [ms ! k])"
proof -
  define one where "one src =
     \<lparr> name = source_fileName src @ '' - '' @ sheetName src,
       yAxis = sorted_list_of_set (collected fileData [src] (yValOf columnSelections)),
       xAxis = sorted_list_of_set (collected fileData [src] (xValOf columnSelections)),
       data = grid (sorted_list_of_set (collected fileData [src] (yValOf columnSelections)))
                (sorted_list_of_set (collected fileData [src] (xValOf columnSelections)))
                (hit fileData columnSelections [src] None) \<rparr>" for src
  have single: "source_matrices fileData columnSelections src = [one src]"
    if "src \<in> set (sources cfg)" for src
  proof -
    from that assms(3) obtain sh where sh: "lookup_sheet fileData src = Inr (Some sh)"
      by blast
    from that assms(2) have "collected fileData [src] (secValOf columnSelections) = {}"
      by (auto simp: collected_def secValOf_def secondaryValue_def)
    then show ?thesis
      by (simp add: source_matrices_def sh built_no_split one_def)
  qed
  have range: "in_range fileData [cfg]"
    using assms(3) lookup_sheet_Some_in_range by (fastforce simp: in_range_def)
  have all: "concat (map (source_matrices fileData columnSelections) (sources cfg)) =
      map one (sources cfg)"
    using single by (rule concat_map_singletons)
  have run: "computeMatrices fileData selectedTabs columnSelections [cfg] =
      Inr (map one (sources cfg))"
    using assms(1) by (simp add: computeMatrices_eq [OF range] config_matrices_def all)
  have alone: "computeMatrices fileData selectedTabs columnSelections
      [cfg\<lparr>sources := [sources cfg ! k]\<rparr>] = Inr [map one (sources cfg) ! k]"
    if k: "k < length (sources cfg)" for k
  proof -
    from k have mem: "sources cfg ! k \<in> set (sources cfg)" by simp
    with assms(3) have "in_range fileData [cfg\<lparr>sources := [sources cfg ! k]\<rparr>]"
      using lookup_sheet_Some_in_range by (fastforce simp: in_range_def)
    then show ?thesis
      using assms(1) k by (simp add: computeMatrices_eq config_matrices_def single [OF mem])
  qed
  have names: "map name (map one (sources cfg)) =
      map (\<lambda>src. source_fileName src @ '' - '' @ sheetName src) (sources cfg)"
    by (simp add: one_def)
  from run alone names show ?thesis by simp
qed

lemma two_cols:
  "secondaryXCol (two_selections sec) scenario_source = sec"
  "secondaryXCol (two_selections sec) ops_source = None"
  "yCol (two_selections sec) scenario_source = Some ''Emp''"
  "yCol (two_selections sec) ops_source = Some ''Emp''"
  "xCol (two_selections sec) scenario_source = Some ''Role''"
  "xCol (two_selections sec) ops_source = Some ''Role''"
proof -
  have "digits 0 = ''0''" "digits 1 = ''1''" by (simp_all add: digits.simps)
  then have key: "sel_key scenario_source = ''0-staff''" "sel_key ops_source = ''1-ops''"
    by (simp_all add: sel_key_def scenario_source_def ops_source_def)
  show "secondaryXCol (two_selections sec) scenario_source = sec"
    "secondaryXCol (two_selections sec) ops_source = None"
    "yCol (two_selections sec) scenario_source = Some ''Emp''"
    "yCol (two_selections sec) ops_source = Some ''Emp''"
    "xCol (two_selections sec) scenario_source = Some ''Role''"
    "xCol (two_selections sec) ops_source = Some ''Role''"
    by (simp_all add: yCol_def xCol_def secondaryXCol_def key two_selections_def)
qed

lemma two_lookup:
  "lookup_sheet two_files scenario_source = Inr (Some (scenario_sheet scenario_B_rows))"
  "\<exists>sh. lookup_sheet two_files ops_source = Inr (Some sh)"
  by (simp_all add: lookup_sheet_def two_files_def scenario_source_def ops_source_def
        scenario_sheet_def)

theorem C7_independent_count_witness:
  "\<not> merge (two_config False) \<and>
   list_all (\<lambda>src. \<not> selected (secondaryXCol (two_selections None) src))
     (sources (two_config False)) \<and>
   list_all (\<lambda>src. \<exists>sh. lookup_sheet two_files src = Inr (Some sh)) (sources (two_config False)) \<and>
   (\<exists>ms. computeMatrices two_files () (two_selections None) [two_config False] = Inr ms \<and>
      length ms = 2 \<and> map name ms = [''staff.csv - staff'', ''ops.csv - ops''])"
proof -
  have src: "sources (two_config False) = [scenario_source, ops_source]"
    by (simp add: two_config_def)
  have h1: "\<not> merge (two_config False)"
    by (simp add: two_config_def)
  have h2: "\<forall>src \<in> set (sources (two_config False)).
      \<not> selected (secondaryXCol (two_selections None) src)"
    by (simp add: src two_cols selected_def)
  have h3: "\<forall>src \<in> set (sources (two_config False)).
      \<exists>sh. lookup_sheet two_files src = Inr (Some sh)"
    by (simp add: src two_lookup)
  from C7_independent_count [OF h1 h2 h3, of "()"] obtain ms where
    "computeMatrices two_files () (two_selections None) [two_config False] = Inr ms"
    "length ms = length (sources (two_config False))"
    "map name ms = map (\<lambda>src. source_fileName src @ '' - '' @ sheetName src)
       (sources (two_config False))"
    by blast
  then have "\<exists>ms. computeMatrices two_files () (two_selections None) [two_config False] = Inr ms \<and>
      length ms = 2 \<and> map name ms = [''staff.csv - staff'', ''ops.csv - ops'']"
    by (simp add: src scenario_source_def ops_source_def)
  with h1 h2 h3 show ?thesis by (simp add: list_all_iff)
qed




lemma find_permuted:
  assumes "list_all2 rows_permuted ss ss'"
  shows "rel_option rows_permuted (find (\<lambda>s. sheet_name s = n) ss)
           (find (\<lambda>s. sheet_name s = n) ss')"
  using assms by (induction rule: list_all2_induct) (auto simp: rows_permuted_def)

lemma lookup_permuted:
  assumes "files_permuted fd fd'"
  shows "(lookup_sheet fd src = Inl TypeError \<and> lookup_sheet fd' src = Inl TypeError) \<or>
         (lookup_sheet fd src = Inr None \<and> lookup_sheet fd' src = Inr None) \<or>
         (\<exists>sh sh'. lookup_sheet fd src = Inr (Some sh) \<and> lookup_sheet fd' src = Inr (Some sh') \<and>
            set (sheet_data sh) = set (sheet_data sh'))"
proof (cases "fileIndex src < length fd")
  case False
  moreover from assms have "length fd = length fd'"
    by (simp add: files_permuted_def list_all2_lengthD)
  ultimately show ?thesis by (simp add: lookup_sheet_def)
next
  case True
  from assms have len: "length fd = length fd'"
    by (simp add: files_permuted_def list_all2_lengthD)
  from assms True have "list_all2 rows_permuted (sheets (fd ! fileIndex src))
      (sheets (fd' ! fileIndex src))"
    by (simp add: files_permuted_def list_all2_conv_all_nth)
  from find_permuted [OF this, of "sheetName src"]
  have rel: "rel_option rows_permuted
      (find (\<lambda>s. sheet_name s = sheetName src) (sheets (fd ! fileIndex src)))
      (find (\<lambda>s. sheet_name s = sheetName src) (sheets (fd' ! fileIndex src)))" .
  show ?thesis
  proof (cases "find (\<lambda>s. sheet_name s = sheetName src) (sheets (fd ! fileIndex src))")
    case None
    with rel True len show ?thesis by (simp add: lookup_sheet_def)
  next
    case (Some sh)
    with rel obtain sh' where
      sh': "find (\<lambda>s. sheet_name s = sheetName src) (sheets (fd' ! fileIndex src)) = Some sh'"
      and p: "rows_permuted sh sh'"
      by (auto simp: option_rel_Some1)
    from p have "set (sheet_data sh) = set (sheet_data sh')"
      by (auto simp: rows_permuted_def dest: mset_eq_setD)
    with Some sh' True len show ?thesis by (simp add: lookup_sheet_def)
  qed
qed

lemma collected_permuted:
  assumes "files_permuted fd fd'"
  shows "collected fd' srcs g = collected fd srcs g"
proof -
  have "(\<exists>sh. lookup_sheet fd' src = Inr (Some sh) \<and> (\<exists>r \<in> set (sheet_data sh). g src r = Some v))
      \<longleftrightarrow> (\<exists>sh. lookup_sheet fd src = Inr (Some sh) \<and> (\<exists>r \<in> set (sheet_data sh). g src r = Some v))"
    for src v
    using lookup_permuted [OF assms, of src] by auto
  then show ?thesis by (simp add: collected_def)
qed

lemma hit_permuted:
  assumes "files_permuted fd fd'"
  shows "hit fd' cs srcs sec = hit fd cs srcs sec"
proof (intro ext)
  fix a b
  have "(\<exists>sh. lookup_sheet fd' src = Inr (Some sh) \<and>
          row_hits (yCol cs src) (xCol cs src) (secondaryXCol cs src) sec (sheet_data sh) a b)
      \<longleftrightarrow> (\<exists>sh. lookup_sheet fd src = Inr (Some sh) \<and>
          row_hits (yCol cs src) (xCol cs src) (secondaryXCol cs src) sec (sheet_data sh) a b)"
    for src
    using lookup_permuted [OF assms, of src] by (auto simp: row_hits_def)
  then show "hit fd' cs srcs sec a b = hit fd cs srcs sec a b"
    by (simp add: hit_def)
qed

lemma built_permuted:
  assumes "files_permuted fd fd'"
  shows "built fd' cs srcs nm = built fd cs srcs nm"
  by (simp add: built_def Let_def collected_permuted [OF assms] hit_permuted [OF assms])

lemma config_matrices_permuted:
  assumes "files_permuted fd fd'"
  shows "config_matrices fd' cs cfg = config_matrices fd cs cfg"
proof -
  have "source_matrices fd' cs src = source_matrices fd cs src" for src
    using lookup_permuted [OF assms, of src]
    by (auto simp: source_matrices_def built_permuted [OF assms])
  then have "source_matrices fd' cs = source_matrices fd cs"
    by (intro ext)
  then show ?thesis
    by (simp add: config_matrices_def built_permuted [OF assms])
qed

text \<open>
  C8. \<open>computeMatrices\<close> is a function of its inputs, and its result does not depend on the
  order of the rows of the sheets: when the rows of any sheets are permuted, the result
  (failure, or the matrices with their names, axes and cells, in their order) is the same.
\<close>

theorem C8_row_order_irrelevant:
  assumes "files_permuted fileData fileData'"
  shows "computeMatrices fileData' selectedTabs columnSelections matrixConfig =
         computeMatrices fileData selectedTabs columnSelections matrixConfig"
proof -
  from assms have "length fileData = length fileData'"
    by (simp add: files_permuted_def list_all2_lengthD)
  then have range: "in_range fileData' matrixConfig \<longleftrightarrow> in_range fileData matrixConfig"
    by (simp add: in_range_def)
  have same: "config_matrices fileData' columnSelections =
      config_matrices fileData columnSelections"
    by (intro ext) (rule config_matrices_permuted [OF assms])
  show ?thesis
  proof (cases "in_range fileData matrixConfig")
    case True
    with range show ?thesis
      by (simp add: computeMatrices_eq same)
  next
    case False
    with range show ?thesis
      by (simp add: computeMatrices_fail)
  qed
qed

theorem C8_row_order_irrelevant_witness:
  "files_permuted (scenario_files scenario_B_rows) (scenario_files (rev scenario_B_rows)) \<and>
   computeMatrices (scenario_files (rev scenario_B_rows)) ()
     (scenario_selections (Some ''Dept'')) [scenario_config True, scenario_config False] =
   computeMatrices (scenario_files scenario_B_rows) ()
     (scenario_selections (Some ''Dept'')) [scenario_config True, scenario_config False] \<and>
   computeMatrices (scenario_files (rev scenario_B_rows)) ()
     (scenario_selections (Some ''Dept'')) [scenario_config True, scenario_config False] =
   Inr [\<lparr> name = ''staff - Eng'', yAxis = [''Alice'', ''Bob''], xAxis = [''Admin'', ''Editor''],
           data = [[0, 1], [0, 0]] \<rparr>,
        \<lparr> name = ''staff - HR'', yAxis = [''Alice'', ''Bob''], xAxis = [''Admin'', ''Editor''],
           data = [[1, 0], [1, 0]] \<rparr>,
        \<lparr> name = ''staff.csv - staff - Eng'', yAxis = [''Alice'', ''Bob''],
           xAxis = [''Admin'', ''Editor''], data = [[0, 1], [0, 0]] \<rparr>,
        \<lparr> name = ''staff.csv - staff - HR'', yAxis = [''Alice'', ''Bob''],
           xAxis = [''Admin'', ''Editor''], data = [[1, 0], [1, 0]] \<rparr>]"
proof -
  have h: "files_permuted (scenario_files scenario_B_rows) (scenario_files (rev scenario_B_rows))"
    by (simp add: files_permuted_def scenario_files_def rows_permuted_def scenario_sheet_def)
  have run: "computeMatrices (scenario_files (rev scenario_B_rows)) ()
     (scenario_selections (Some ''Dept'')) [scenario_config True, scenario_config False] =
   Inr [\<lparr> name = ''staff - Eng'', yAxis = [''Alice'', ''Bob''], xAxis = [''Admin'', ''Editor''],
           data = [[0, 1], [0, 0]] \<rparr>,
        \<lparr> name = ''staff - HR'', yAxis = [''Alice'', ''Bob''], xAxis = [''Admin'', ''Editor''],
           data = [[1, 0], [1, 0]] \<rparr>,
        \<lparr> name = ''staff.csv - staff - Eng'', yAxis = [''Alice'', ''Bob''],
           xAxis = [''Admin'', ''Editor''], data = [[0, 1], [0, 0]] \<rparr>,
        \<lparr> name = ''staff.csv - staff - HR'', yAxis = [''Alice'', ''Bob''],
           xAxis = [''Admin'', ''Editor''], data = [[1, 0], [1, 0]] \<rparr>]"
    by code_simp
  from C8_row_order_irrelevant [OF h, of "()" "scenario_selections (Some ''Dept'')"
      "[scenario_config True, scenario_config False]"] h run
  show ?thesis by simp
qed

lemma collected_filter_found:
  "collected fd (filter (\<lambda>src. lookup_sheet fd src \<noteq> Inr None) srcs) g = collected fd srcs g"
  by (fastforce simp: collected_def)

lemma hit_filter_found:
  "hit fd cs (filter (\<lambda>src. lookup_sheet fd src \<noteq> Inr None) srcs) sec = hit fd cs srcs sec"
  by (intro ext) (fastforce simp: hit_def)

lemma built_filter_found:
  "built fd cs (filter (\<lambda>src. lookup_sheet fd src \<noteq> Inr None) srcs) nm = built fd cs srcs nm"
  by (simp add: built_def Let_def collected_filter_found hit_filter_found)

lemma source_matrices_filter_found:
  "concat (map (source_matrices fd cs) (filter (\<lambda>src. lookup_sheet fd src \<noteq> Inr None) srcs)) =
   concat (map (source_matrices fd cs) srcs)"
  by (induction srcs) (simp_all add: source_matrices_def)

lemma config_matrices_filter_found:
  "config_matrices fd cs (cfg\<lparr>sources := filter (\<lambda>src. lookup_sheet fd src \<noteq> Inr None) (sources cfg)\<rparr>) =
   config_matrices fd cs cfg"
  by (simp add: config_matrices_def built_filter_found source_matrices_filter_found)

text \<open>
  C5, as the code has it. A source whose file index names a file of \<open>fileData\<close> but whose
  sheet name matches no sheet of that file is skipped silently: when every source names a
  file, \<open>computeMatrices\<close> does not fail, and it gives the matrices that it gives when the
  sources without a sheet are removed from the configs.
\<close>

theorem C5_stale_sheet_skipped:
  assumes "in_range fileData matrixConfig"
  shows "\<exists>ms. computeMatrices fileData selectedTabs columnSelections matrixConfig = Inr ms \<and>
           computeMatrices fileData selectedTabs columnSelections
             (map (\<lambda>cfg. cfg\<lparr>sources :=
                     filter (\<lambda>src. lookup_sheet fileData src \<noteq> Inr None) (sources cfg)\<rparr>)
                matrixConfig) = Inr ms"
proof -
  let ?keep = "\<lambda>cfg. cfg\<lparr>sources :=
      filter (\<lambda>src. lookup_sheet fileData src \<noteq> Inr None) (sources cfg)\<rparr>"
  from assms have "in_range fileData (map ?keep matrixConfig)"
    by (auto simp: in_range_def)
  then have "computeMatrices fileData selectedTabs columnSelections (map ?keep matrixConfig) =
      Inr (concat (map (config_matrices fileData columnSelections) matrixConfig))"
    by (simp add: computeMatrices_eq comp_def config_matrices_filter_found)
  with computeMatrices_eq [OF assms, of selectedTabs columnSelections] show ?thesis
    by simp
qed

text \<open>
  A source whose file index is outside \<open>fileData\<close> is not skipped: the run fails, although
  the other source of the config resolves and gives a matrix on its own.
\<close>

theorem C5_stale_file_counterexample:
  "computeMatrices (scenario_files scenario_A_rows) () (scenario_selections None)
     [\<lparr> config_name = ''staff'',
        sources = [scenario_source,
                   \<lparr> fileIndex = 1, sheetName = ''staff'', source_fileName = ''old.csv'' \<rparr>],
        merge = False \<rparr>] = Inl TypeError \<and>
   computeMatrices (scenario_files scenario_A_rows) () (scenario_selections None)
     [\<lparr> config_name = ''staff'', sources = [scenario_source], merge = False \<rparr>] =
   Inr [\<lparr> name = ''staff.csv - staff'', yAxis = [''Alice'', ''Bob''],
           xAxis = [''Admin'', ''Editor''], data = [[1, 1], [1, 0]] \<rparr>]"
  by code_simp

theorem C5_stale_sheet_skipped_witness:
  "in_range (scenario_files scenario_A_rows)
     [\<lparr> config_name = ''staff'',
        sources = [\<lparr> fileIndex = 0, sheetName = ''gone'', source_fileName = ''staff.csv'' \<rparr>,
                   scenario_source],
        merge = False \<rparr>] \<and>
   computeMatrices (scenario_files scenario_A_rows) () (scenario_selections None)
     [\<lparr> config_name = ''staff'',
        sources = [\<lparr> fileIndex = 0, sheetName = ''gone'', source_fileName = ''staff.csv'' \<rparr>,
                   scenario_source],
        merge = False \<rparr>] =
   Inr [\<lparr> name = ''staff.csv - staff'', yAxis = [''Alice'', ''Bob''],
           xAxis = [''Admin'', ''Editor''], data = [[1, 1], [1, 0]] \<rparr>] \<and>
   (\<exists>ms. computeMatrices (scenario_files scenario_A_rows) () (scenario_selections None)
      [\<lparr> config_name = ''staff'',
         sources = [\<lparr> fileIndex = 0, sheetName = ''gone'', source_fileName = ''staff.csv'' \<rparr>,
                    scenario_source],
         merge = False \<rparr>] = Inr ms \<and>
      computeMatrices (scenario_files scenario_A_rows) () (scenario_selections None)
        (map (\<lambda>cfg. cfg\<lparr>sources :=
                filter (\<lambda>src. lookup_sheet (scenario_files scenario_A_rows) src \<noteq> Inr None)
                  (sources cfg)\<rparr>)
           [\<lparr> config_name = ''staff'',
              sources = [\<lparr> fileIndex = 0, sheetName = ''gone'', source_fileName = ''staff.csv'' \<rparr>,
                         scenario_source],
              merge = False \<rparr>]) = Inr ms)"
proof -
  let ?cfg = "\<lparr> config_name = ''staff'',
        sources = [\<lparr> fileIndex = 0, sheetName = ''gone'', source_fileName = ''staff.csv'' \<rparr>,
                   scenario_source],
        merge = False \<rparr>"
  have h: "in_range (scenario_files scenario_A_rows) [?cfg]"
    by (simp add: in_range_def scenario_files_def scenario_source_def)
  have run: "computeMatrices (scenario_files scenario_A_rows) () (scenario_selections None) [?cfg] =
      Inr [\<lparr> name = ''staff.csv - staff'', yAxis = [''Alice'', ''Bob''],
              xAxis = [''Admin'', ''Editor''], data = [[1, 1], [1, 0]] \<rparr>]"
    by code_simp
  from C5_stale_sheet_skipped [OF h, of "()" "scenario_selections None"] h run
  show ?thesis by blast
qed











end
